theory Spec2Isabelle
  imports Main
begin

section \<open>Data model (task-api/models.py)\<close>

text \<open>
  A member of a JSON request body: the key is missing, it is present with the value
  null, or it is present with a value of the declared type.  The validated
  \<^verbatim>\<open>TaskUpdate\<close> object keeps the same three cases: a field that was never set
  (left out by \<^verbatim>\<open>dict(exclude_unset=True)\<close>), a field set to None, a field set to a
  value.
\<close>

datatype 'a member = Absent | Null | Given 'a

text \<open>
  \<^verbatim>\<open>class TaskBase(SQLModel)\<close>: the four fields shared by the table and by the
  create payload.  \<^verbatim>\<open>TaskCreate\<close> adds nothing to it.
\<close>

record TaskBase =
  title :: string
  description :: "string option"
  status :: string
  priority :: int

text \<open>
  \<^verbatim>\<open>class Task(TaskBase, table=True)\<close>: a stored row.  The field \<^verbatim>\<open>id\<close> is called
  \<open>task_id\<close> here (\<open>id\<close> is the identity function of HOL); a \<^verbatim>\<open>datetime\<close> is an
  integer count of clock ticks.  \<^verbatim>\<open>TaskResponse\<close> has the same seven fields.
\<close>

record Task = TaskBase +
  task_id :: int
  created_at :: int
  updated_at :: int

text \<open>The JSON body of a POST or PUT request: four members, each of which may be missing.\<close>

record payload =
  p_title :: "string member"
  p_description :: "string member"
  p_status :: "string member"
  p_priority :: "int member"

text \<open>
  The errors a request can end in: the 422 of the body validation with the names of the
  offending fields, the 404 of the handlers with its \<^verbatim>\<open>detail\<close> string, and a
  statement that the storage engine refuses (a NULL for a NOT NULL column, an OFFSET or
  LIMIT that is negative or does not fit 64 bits on PostgreSQL, the engine main.py and
  database.py name), which leaves the handler as an exception.
\<close>

datatype error = ValidationError "string list" | NotFound string | StorageError

subsection \<open>Field constraints\<close>

text \<open>\<^verbatim>\<open>Field(index=True, min_length=1, max_length=200)\<close>\<close>

definition title_ok :: "string \<Rightarrow> bool" where
  "title_ok s \<longleftrightarrow> 1 \<le> length s \<and> length s \<le> 200"

text \<open>\<^verbatim>\<open>Field(None, max_length=2000)\<close>\<close>

definition description_ok :: "string \<Rightarrow> bool" where
  "description_ok s \<longleftrightarrow> length s \<le> 2000"

text \<open>
  \<^verbatim>\<open>regex="^(pending|in_progress|completed)$"\<close>: the pattern models.py declares for
  \<open>status\<close>, and what the tests expect to be enforced
  (\<^verbatim>\<open>test_create_task_invalid_status\<close>, \<^verbatim>\<open>test_update_task_invalid_data\<close>).  It is not:
  config.py imports \<^verbatim>\<open>pydantic_settings\<close>, which runs on pydantic 2 only, and there a
  field collects the constraint \<^verbatim>\<open>pattern\<close> and ignores the keyword \<^verbatim>\<open>regex\<close>.  The
  validation below therefore never calls \<open>status_ok\<close>; the theorems use it to say
  which statuses the declaration allows.
\<close>

definition status_ok :: "string \<Rightarrow> bool" where
  "status_ok s \<longleftrightarrow> s = ''pending'' \<or> s = ''in_progress'' \<or> s = ''completed''"

text \<open>\<^verbatim>\<open>Field(default=1, ge=1, le=3)\<close>\<close>

definition priority_ok :: "int \<Rightarrow> bool" where
  "priority_ok n \<longleftrightarrow> 1 \<le> n \<and> n \<le> 3"

subsection \<open>Validation of the create payload (TaskCreate)\<close>

text \<open>
  Each function gives the validated value of one field, or None when the field is in
  error.  \<open>title\<close> is required; \<open>description\<close> is \<^verbatim>\<open>Optional[str]\<close> with default
  None, so null is accepted; \<open>status\<close> and \<open>priority\<close> have defaults and are not
  Optional, so a missing key takes the default and null is an error.  A status that is
  given is any string: its pattern is not enforced.
\<close>

definition create_title :: "string member \<Rightarrow> string option" where
  "create_title m =
     (case m of Absent \<Rightarrow> None | Null \<Rightarrow> None
      | Given s \<Rightarrow> if title_ok s then Some s else None)"

definition create_description :: "string member \<Rightarrow> string option option" where
  "create_description m =
     (case m of Absent \<Rightarrow> Some None | Null \<Rightarrow> Some None
      | Given s \<Rightarrow> if description_ok s then Some (Some s) else None)"

definition create_status :: "string member \<Rightarrow> string option" where
  "create_status m =
     (case m of Absent \<Rightarrow> Some ''pending'' | Null \<Rightarrow> None | Given s \<Rightarrow> Some s)"

definition create_priority :: "int member \<Rightarrow> int option" where
  "create_priority m =
     (case m of Absent \<Rightarrow> Some 1 | Null \<Rightarrow> None
      | Given n \<Rightarrow> if priority_ok n then Some n else None)"

definition offending :: "string \<Rightarrow> 'a option \<Rightarrow> string list" where
  "offending name v = (case v of None \<Rightarrow> [name] | Some _ \<Rightarrow> [])"

definition TaskCreate_validate :: "payload \<Rightarrow> error + TaskBase" where
  "TaskCreate_validate p =
     (case (create_title (p_title p), create_description (p_description p),
            create_status (p_status p), create_priority (p_priority p)) of
        (Some t, Some d, Some s, Some n) \<Rightarrow>
          Inr \<lparr>title = t, description = d, status = s, priority = n\<rparr>
      | (t, d, s, n) \<Rightarrow>
          Inl (ValidationError (offending ''title'' t @ offending ''description'' d @
                                offending ''status'' s @ offending ''priority'' n)))"

subsection \<open>Validation of the update payload (TaskUpdate)\<close>

text \<open>
  Every field of \<^verbatim>\<open>TaskUpdate\<close> is Optional with default None: a missing key and null
  both pass, a value is checked against the constraint of its field.  \<open>status\<close> has no
  constraint that is enforced, so it is never in error.
\<close>

definition update_ok :: "('a \<Rightarrow> bool) \<Rightarrow> 'a member \<Rightarrow> bool" where
  "update_ok ok m = (case m of Absent \<Rightarrow> True | Null \<Rightarrow> True | Given v \<Rightarrow> ok v)"

definition flag :: "string \<Rightarrow> bool \<Rightarrow> string list" where
  "flag name ok = (if ok then [] else [name])"

definition TaskUpdate_errors :: "payload \<Rightarrow> string list" where
  "TaskUpdate_errors p =
     flag ''title'' (update_ok title_ok (p_title p)) @
     flag ''description'' (update_ok description_ok (p_description p)) @
     flag ''priority'' (update_ok priority_ok (p_priority p))"

definition TaskUpdate_validate :: "payload \<Rightarrow> error + payload" where
  "TaskUpdate_validate p =
     (if TaskUpdate_errors p = [] then Inr p else Inl (ValidationError (TaskUpdate_errors p)))"

section \<open>The table and the session\<close>

text \<open>
  The \<^verbatim>\<open>task\<close> table: its rows in the order PostgreSQL returns them for a SELECT with
  no ORDER BY, and the sequence behind the primary key.  An INSERT appends a row; an
  UPDATE writes a new version of the row behind all the others, so the updated row is
  returned last.
\<close>

record store =
  rows :: "Task list"
  next_id :: int

definition empty_store :: store where
  "empty_store = \<lparr>rows = [], next_id = 1\<rparr>"

text \<open>\<^verbatim>\<open>session.get(Task, task_id)\<close>\<close>

definition session_get :: "store \<Rightarrow> int \<Rightarrow> Task option" where
  "session_get s i = find (\<lambda>r. task_id r = i) (rows s)"

subsection \<open>The text of an integer, as an f-string prints it\<close>

definition digit_char :: "nat \<Rightarrow> char" where
  "digit_char d = ''0123456789'' ! d"

fun str_nat :: "nat \<Rightarrow> string" where
  "str_nat n = (if n < 10 then [digit_char n] else str_nat (n div 10) @ [digit_char (n mod 10)])"

declare str_nat.simps [simp del]

definition str_int :: "int \<Rightarrow> string" where
  "str_int i = (if i < 0 then CHR ''-'' # str_nat (nat (- i)) else str_nat (nat i))"

definition not_found_detail :: "int \<Rightarrow> string" where
  "not_found_detail i = ''Task with ID '' @ str_int i @ '' not found''"

section \<open>The handlers (task-api/main.py)\<close>

subsection \<open>POST /tasks\<close>

text \<open>
  \<^verbatim>\<open>create_task\<close> receives the validated \<^verbatim>\<open>TaskCreate\<close>.  \<^verbatim>\<open>Task.from_orm\<close> copies its
  four fields and runs the two \<^verbatim>\<open>default_factory=datetime.utcnow\<close> calls, first for
  \<open>created_at\<close>, then for \<open>updated_at\<close>: \<open>t1\<close> and \<open>t2\<close> are these two clock readings.
  The commit inserts the row with the next value of the sequence as its id.
\<close>

definition create_task :: "store \<Rightarrow> TaskBase \<Rightarrow> int \<Rightarrow> int \<Rightarrow> Task \<times> store" where
  "create_task s task t1 t2 =
     (let db_task = \<lparr>title = title task, description = description task,
                     status = status task, priority = priority task,
                     task_id = next_id s, created_at = t1, updated_at = t2\<rparr>
      in (db_task, \<lparr>rows = rows s @ [db_task], next_id = next_id s + 1\<rparr>))"

text \<open>The route: the body is validated first, and a 422 never reaches the handler.\<close>

definition POST_tasks :: "store \<Rightarrow> payload \<Rightarrow> int \<Rightarrow> int \<Rightarrow> (error + Task) \<times> store" where
  "POST_tasks s body t1 t2 =
     (case TaskCreate_validate body of
        Inl e \<Rightarrow> (Inl e, s)
      | Inr task \<Rightarrow> (case create_task s task t1 t2 of (db_task, s') \<Rightarrow> (Inr db_task, s')))"

subsection \<open>GET /tasks\<close>

text \<open>
  \<^verbatim>\<open>if status_filter:\<close> is false for None and for the empty string.  The handler
  checks none of its parameters: \<open>skip\<close> and \<open>limit\<close> are Python integers of any size
  and go into OFFSET and LIMIT as they are.  Both are 64-bit integers for PostgreSQL,
  which refuses the statement when one of them is negative or is \<open>2 ^ 63\<close> or more.
\<close>

definition truthy :: "string option \<Rightarrow> bool" where
  "truthy f = (case f of None \<Rightarrow> False | Some v \<Rightarrow> v \<noteq> [])"

definition list_tasks :: "store \<Rightarrow> int \<Rightarrow> int \<Rightarrow> string option \<Rightarrow> error + Task list" where
  "list_tasks s skip limit status_filter =
     (let statement = (if truthy status_filter
                       then filter (\<lambda>r. Some (status r) = status_filter) (rows s)
                       else rows s)
      in if skip < 0 \<or> limit < 0 \<or> 2 ^ 63 \<le> skip \<or> 2 ^ 63 \<le> limit then Inl StorageError
         else Inr (take (nat limit) (drop (nat skip) statement)))"

subsection \<open>GET /tasks/{task_id}\<close>

definition read_task :: "store \<Rightarrow> int \<Rightarrow> error + Task" where
  "read_task s i =
     (case session_get s i of
        None \<Rightarrow> Inl (NotFound (not_found_detail i))
      | Some task \<Rightarrow> Inr task)"

subsection \<open>PUT /tasks/{task_id}\<close>

text \<open>
  The loop \<^verbatim>\<open>for field, value in update_data.items(): setattr(db_task, field, value)\<close>
  touches the fields that were set, and only those; nothing is validated on assignment.
  \<open>title\<close>, \<open>status\<close> and \<open>priority\<close> are declared \<^verbatim>\<open>str\<close> and \<^verbatim>\<open>int\<close>, not Optional,
  so their columns are NOT NULL: \<open>set_column\<close> is the attribute after the loop for such
  a column, None standing for a None that the commit will refuse.  \<open>set_nullable\<close> is
  the attribute of the nullable column \<open>description\<close>.  A refused commit raises, and
  the session is closed without a write.
\<close>

definition set_column :: "'a member \<Rightarrow> 'a \<Rightarrow> 'a option" where
  "set_column m old = (case m of Absent \<Rightarrow> Some old | Null \<Rightarrow> None | Given v \<Rightarrow> Some v)"

definition set_nullable :: "'a member \<Rightarrow> 'a option \<Rightarrow> 'a option" where
  "set_nullable m old = (case m of Absent \<Rightarrow> old | Null \<Rightarrow> None | Given v \<Rightarrow> Some v)"

definition update_task :: "store \<Rightarrow> int \<Rightarrow> payload \<Rightarrow> int \<Rightarrow> (error + Task) \<times> store" where
  "update_task s i task_update now =
     (case session_get s i of
        None \<Rightarrow> (Inl (NotFound (not_found_detail i)), s)
      | Some db_task \<Rightarrow>
          (case (set_column (p_title task_update) (title db_task),
                 set_column (p_status task_update) (status db_task),
                 set_column (p_priority task_update) (priority db_task)) of
             (Some t, Some st, Some n) \<Rightarrow>
               (let db_task' = db_task\<lparr>title := t,
                      description := set_nullable (p_description task_update) (description db_task),
                      status := st, priority := n, updated_at := now\<rparr>
                in (Inr db_task',
                    s\<lparr>rows := filter (\<lambda>r. task_id r \<noteq> i) (rows s) @ [db_task']\<rparr>))
           | _ \<Rightarrow> (Inl StorageError, s)))"

text \<open>The route: the body is validated before the handler looks the id up.\<close>

definition PUT_task :: "store \<Rightarrow> int \<Rightarrow> payload \<Rightarrow> int \<Rightarrow> (error + Task) \<times> store" where
  "PUT_task s i body now =
     (case TaskUpdate_validate body of
        Inl e \<Rightarrow> (Inl e, s)
      | Inr task_update \<Rightarrow> update_task s i task_update now)"

subsection \<open>DELETE /tasks/{task_id}\<close>

definition delete_task :: "store \<Rightarrow> int \<Rightarrow> (error + unit) \<times> store" where
  "delete_task s i =
     (case session_get s i of
        None \<Rightarrow> (Inl (NotFound (not_found_detail i)), s)
      | Some task \<Rightarrow> (Inr (), s\<lparr>rows := filter (\<lambda>r. task_id r \<noteq> i) (rows s)\<rparr>))"

subsection \<open>GET /stats\<close>

record stats =
  n_total :: nat
  n_pending :: nat
  n_in_progress :: nat
  n_completed :: nat

definition get_stats :: "store \<Rightarrow> stats" where
  "get_stats s =
     \<lparr>n_total = length (rows s),
      n_pending = length (filter (\<lambda>r. status r = ''pending'') (rows s)),
      n_in_progress = length (filter (\<lambda>r. status r = ''in_progress'') (rows s)),
      n_completed = length (filter (\<lambda>r. status r = ''completed'') (rows s))\<rparr>"

section \<open>Sequences of requests\<close>

text \<open>
  The requests that write: each carries the clock readings its handler would take.
  Reads leave the table as it is and are not listed.
\<close>

datatype request = Create payload int int | Update int payload int | Delete int

fun handle :: "store \<Rightarrow> request \<Rightarrow> store" where
  "handle s (Create body t1 t2) = snd (POST_tasks s body t1 t2)"
| "handle s (Update i body now) = snd (PUT_task s i body now)"
| "handle s (Delete i) = snd (delete_task s i)"

definition run :: "request list \<Rightarrow> store" where
  "run reqs = foldl handle empty_store reqs"

fun is_update :: "request \<Rightarrow> bool" where
  "is_update (Create body t1 t2) = False"
| "is_update (Update i body now) = True"
| "is_update (Delete i) = False"

text \<open>The clock readings of a sequence of requests, in the order they are taken.\<close>

fun readings :: "request \<Rightarrow> int list" where
  "readings (Create body t1 t2) = [t1, t2]"
| "readings (Update i body now) = [now]"
| "readings (Delete i) = []"

definition clock :: "request list \<Rightarrow> int list" where
  "clock reqs = concat (map readings reqs)"

section \<open>Invariants of the table\<close>

text \<open>
  The ids of the rows increase along the table, and all lie below the next value of the
  sequence: the rows stand in the order of their creation.
\<close>

definition ids_ok :: "store \<Rightarrow> bool" where
  "ids_ok s \<longleftrightarrow> sorted_wrt (<) (map task_id (rows s)) \<and>
     list_all (\<lambda>i. i < next_id s) (map task_id (rows s))"

text \<open>No row was updated before it was created, and none was created after the reading \<open>b\<close>.\<close>

definition stamps_ok :: "int \<Rightarrow> store \<Rightarrow> bool" where
  "stamps_ok b s =
     list_all (\<lambda>r. created_at r \<le> updated_at r \<and> created_at r \<le> b) (rows s)"

section \<open>The create constraints in the words of the specification\<close>

text \<open>
  What the specification calls a violation, field by field: a title that is missing (or
  null), empty or longer than 200; a description longer than 2000; a status that is given
  and is not one of the three values; a priority that is given and lies outside 1..3.
  \<open>violated_fields\<close> lists the names of the fields in violation, in the order of the
  model's fields.
\<close>

definition title_violated :: "string member \<Rightarrow> bool" where
  "title_violated m = (case m of Given s \<Rightarrow> s = [] \<or> 200 < length s | _ \<Rightarrow> True)"

definition description_violated :: "string member \<Rightarrow> bool" where
  "description_violated m = (case m of Given s \<Rightarrow> 2000 < length s | _ \<Rightarrow> False)"

definition status_violated :: "string member \<Rightarrow> bool" where
  "status_violated m =
     (case m of Absent \<Rightarrow> False | Null \<Rightarrow> True
      | Given s \<Rightarrow> s \<notin> {''pending'', ''in_progress'', ''completed''})"

definition priority_violated :: "int member \<Rightarrow> bool" where
  "priority_violated m =
     (case m of Absent \<Rightarrow> False | Null \<Rightarrow> True | Given n \<Rightarrow> n < 1 \<or> 3 < n)"

definition violated_fields :: "payload \<Rightarrow> string list" where
  "violated_fields p =
     (if title_violated (p_title p) then [''title''] else []) @
     (if description_violated (p_description p) then [''description''] else []) @
     (if status_violated (p_status p) then [''status''] else []) @
     (if priority_violated (p_priority p) then [''priority''] else [])"

section \<open>Reading an id back from its text\<close>

text \<open>
  The inverse of \<open>str_int\<close>, which the handlers do not need: it shows that the detail of
  a 404 determines the id it was raised for.
\<close>

definition digit_val :: "char \<Rightarrow> nat" where
  "digit_val c = length (takeWhile (\<lambda>d. d \<noteq> c) ''0123456789'')"

definition parse_nat :: "string \<Rightarrow> nat" where
  "parse_nat cs = foldl (\<lambda>a c. 10 * a + digit_val c) 0 cs"

definition parse_int :: "string \<Rightarrow> int" where
  "parse_int cs =
     (case cs of [] \<Rightarrow> 0
      | c # ds \<Rightarrow> if c = CHR ''-'' then - int (parse_nat ds) else int (parse_nat cs))"

section \<open>Example requests\<close>

definition only_title :: "string \<Rightarrow> payload" where
  "only_title s = \<lparr>p_title = Given s, p_description = Absent, p_status = Absent,
     p_priority = Absent\<rparr>"

text \<open>Five tasks created one after the other, as in \<^verbatim>\<open>test_list_tasks_pagination\<close>.\<close>

definition five_tasks :: "request list" where
  "five_tasks = [Create (only_title ''Task 1'') 1 2, Create (only_title ''Task 2'') 3 4,
     Create (only_title ''Task 3'') 5 6, Create (only_title ''Task 4'') 7 8,
     Create (only_title ''Task 5'') 9 10]"

text \<open>The body of \<^verbatim>\<open>test_update_task_partial\<close>: a status and nothing else.\<close>

definition only_status :: "string \<Rightarrow> payload" where
  "only_status s = \<lparr>p_title = Absent, p_description = Absent, p_status = Given s,
     p_priority = Absent\<rparr>"

text \<open>The body of \<^verbatim>\<open>test_create_task_invalid_status\<close>.\<close>

definition bad_status_body :: payload where
  "bad_status_body = \<lparr>p_title = Given ''Task with bad status'', p_description = Absent,
     p_status = Given ''invalid_status'', p_priority = Absent\<rparr>"

lemmas eval_defs = run_def POST_tasks_def PUT_task_def delete_task_def update_task_def
  TaskCreate_validate_def TaskUpdate_validate_def TaskUpdate_errors_def flag_def update_ok_def
  create_title_def create_description_def create_status_def create_priority_def
  title_ok_def description_ok_def priority_ok_def offending_def
  create_task_def session_get_def set_column_def set_nullable_def
  Let_def empty_store_def only_title_def only_status_def bad_status_body_def

section \<open>Looking a row up\<close>

lemma session_get_in: "session_get s i = Some r \<Longrightarrow> r \<in> set (rows s) \<and> task_id r = i"
  by (auto simp: session_get_def find_Some_iff)

lemma not_stored: "i \<notin> task_id ` set (rows s) \<Longrightarrow> session_get s i = None"
  by (auto simp: session_get_def find_None_iff)

lemma stored: "i \<in> task_id ` set (rows s) \<Longrightarrow> \<exists>t. session_get s i = Some t"
  by (cases "session_get s i") (auto simp: session_get_def find_None_iff)

lemma find_moved:
  "task_id t' = i \<Longrightarrow>
   find (\<lambda>r. task_id r = i) (filter (\<lambda>r. task_id r \<noteq> i) xs @ [t']) = Some t'"
  by (induction xs) auto

lemma find_filter_other:
  "j \<noteq> i \<Longrightarrow> find (\<lambda>r. task_id r = j) (filter (\<lambda>r. task_id r \<noteq> i) xs) =
     find (\<lambda>r. task_id r = j) xs"
  by (induction xs) auto

lemma length_filter_other:
  "distinct (map task_id xs) \<Longrightarrow> i \<in> task_id ` set xs \<Longrightarrow>
   Suc (length (filter (\<lambda>r. task_id r \<noteq> i) xs)) = length xs"
proof (induction xs)
  case Nil
  then show ?case by simp
next
  case (Cons x xs)
  show ?case
  proof (cases "task_id x = i")
    case True
    with Cons.prems have "i \<notin> task_id ` set xs" by auto
    then have "filter (\<lambda>r. task_id r \<noteq> i) xs = xs" by (auto simp: filter_id_conv)
    with True show ?thesis by simp
  next
    case False
    with Cons show ?thesis by auto
  qed
qed

section \<open>What an update does to the table\<close>

lemma update_task_Inr:
  assumes "session_get s i = Some t" and "update_task s i u now = (Inr t', s')"
  shows "set_column (p_title u) (title t) = Some (title t')"
    and "description t' = set_nullable (p_description u) (description t)"
    and "set_column (p_status u) (status t) = Some (status t')"
    and "set_column (p_priority u) (priority t) = Some (priority t')"
    and "task_id t' = task_id t" and "created_at t' = created_at t" and "updated_at t' = now"
    and "rows s' = filter (\<lambda>r. task_id r \<noteq> i) (rows s) @ [t']"
    and "next_id s' = next_id s"
  using assms by (auto simp: update_task_def Let_def split: option.splits)

lemma PUT_task_Inr:
  "PUT_task s i u now = (Inr t', s') \<Longrightarrow> update_task s i u now = (Inr t', s')"
  by (auto simp: PUT_task_def TaskUpdate_validate_def split: sum.splits if_splits)

lemma PUT_task_succeeds:
  assumes "session_get s i = Some t" and "TaskUpdate_errors u = []"
    and "p_title u \<noteq> Null" and "p_status u \<noteq> Null" and "p_priority u \<noteq> Null"
  shows "\<exists>t' s'. PUT_task s i u now = (Inr t', s')"
  using assms
  by (cases "p_title u"; cases "p_status u"; cases "p_priority u")
    (simp_all add: PUT_task_def TaskUpdate_validate_def update_task_def set_column_def Let_def)

lemma PUT_task_cases:
  "snd (PUT_task s i p now) = s \<or> snd (PUT_task s i p now) = snd (update_task s i p now)"
  by (auto simp: PUT_task_def TaskUpdate_validate_def split: sum.splits)

lemma update_task_Inl:
  "fst (update_task s i u now) = Inl e \<Longrightarrow> snd (update_task s i u now) = s"
  by (auto simp: update_task_def Let_def split: option.splits)

lemma update_task_Inr_rows:
  "fst (update_task s i u now) = Inr t' \<Longrightarrow>
   task_id t' = i \<and>
   rows (snd (update_task s i u now)) = filter (\<lambda>r. task_id r \<noteq> i) (rows s) @ [t']"
  by (auto simp: update_task_def Let_def dest!: session_get_in split: option.splits)

section \<open>Creates and deletes keep the rows in the order of their creation\<close>

lemma POST_ids_ok: "ids_ok s \<Longrightarrow> ids_ok (snd (POST_tasks s p t1 t2))"
  by (auto simp: POST_tasks_def create_task_def ids_ok_def Let_def list_all_iff
      sorted_wrt_append split: sum.splits)

lemma delete_ids_ok: "ids_ok s \<Longrightarrow> ids_ok (snd (delete_task s i))"
  by (auto simp: delete_task_def ids_ok_def list_all_iff sorted_wrt_map sorted_wrt_filter
      split: option.splits)

lemma handle_ids_ok: "ids_ok s \<Longrightarrow> \<not> is_update r \<Longrightarrow> ids_ok (handle s r)"
  by (cases r) (simp_all add: POST_ids_ok delete_ids_ok)

lemma foldl_ids_ok:
  "ids_ok s \<Longrightarrow> list_all (\<lambda>r. \<not> is_update r) reqs \<Longrightarrow> ids_ok (foldl handle s reqs)"
  by (induction reqs arbitrary: s) (simp_all add: handle_ids_ok)

lemma run_ids_ok: "list_all (\<lambda>r. \<not> is_update r) reqs \<Longrightarrow> ids_ok (run reqs)"
  unfolding run_def by (rule foldl_ids_ok) (simp_all add: ids_ok_def empty_store_def)

section \<open>The timestamps under a clock that does not go back\<close>

lemma POST_stamps_ok:
  "stamps_ok b s \<Longrightarrow> b \<le> t1 \<Longrightarrow> t1 \<le> t2 \<Longrightarrow> stamps_ok t2 (snd (POST_tasks s p t1 t2))"
  by (auto simp: POST_tasks_def create_task_def stamps_ok_def Let_def list_all_iff
      split: sum.splits)

lemma update_task_stamps_ok:
  assumes "stamps_ok b s" and "b \<le> now"
  shows "stamps_ok now (snd (update_task s i u now))"
proof (cases "fst (update_task s i u now)")
  case (Inl e)
  with assms show ?thesis by (auto simp: update_task_Inl stamps_ok_def list_all_iff)
next
  case (Inr t')
  then obtain t where "session_get s i = Some t" "created_at t' = created_at t"
    "updated_at t' = now"
    by (auto simp: update_task_def Let_def split: option.splits)
  with assms have "created_at t' \<le> updated_at t' \<and> created_at t' \<le> now"
    by (auto simp: stamps_ok_def list_all_iff dest!: session_get_in)
  with assms Inr show ?thesis
    by (auto simp: update_task_Inr_rows stamps_ok_def list_all_iff)
qed

lemma stamps_ok_mono: "stamps_ok b s \<Longrightarrow> b \<le> c \<Longrightarrow> stamps_ok c s"
  by (auto simp: stamps_ok_def list_all_iff)

lemma PUT_stamps_ok:
  "stamps_ok b s \<Longrightarrow> b \<le> now \<Longrightarrow> stamps_ok now (snd (PUT_task s i p now))"
  using PUT_task_cases [of s i p now]
  by (auto simp: update_task_stamps_ok stamps_ok_mono)

lemma delete_stamps_ok: "stamps_ok b s \<Longrightarrow> stamps_ok b (snd (delete_task s i))"
  by (auto simp: delete_task_def stamps_ok_def list_all_iff split: option.splits)

lemma foldl_stamps_ok:
  "stamps_ok b s \<Longrightarrow> sorted (b # concat (map readings reqs)) \<Longrightarrow>
   \<exists>c. stamps_ok c (foldl handle s reqs)"
proof (induction reqs arbitrary: s b)
  case Nil
  then show ?case by auto
next
  case (Cons r reqs)
  show ?case
  proof (cases r)
    case (Create p t1 t2)
    with Cons.prems have "b \<le> t1" "t1 \<le> t2" "sorted (t2 # concat (map readings reqs))"
      by auto
    with Cons.prems(1) Cons.IH [of t2 "snd (POST_tasks s p t1 t2)"] Create
    show ?thesis by (simp add: POST_stamps_ok)
  next
    case (Update i p now)
    with Cons.prems have "b \<le> now" "sorted (now # concat (map readings reqs))"
      by auto
    with Cons.prems(1) Cons.IH [of now "snd (PUT_task s i p now)"] Update
    show ?thesis by (simp add: PUT_stamps_ok)
  next
    case (Delete i)
    with Cons.prems Cons.IH [of b "snd (delete_task s i)"]
    show ?thesis by (simp add: delete_stamps_ok)
  qed
qed

section \<open>The text of an id determines the id\<close>

lemma digit_cases: "d < 10 \<Longrightarrow> d \<in> {0, 1, 2, 3, 4, 5, 6, 7, 8, 9::nat}"
  by auto

lemma digit_val_char: "d < 10 \<Longrightarrow> digit_val (digit_char d) = d"
  by (drule digit_cases) (auto simp: digit_val_def digit_char_def)

lemma digit_char_not_minus: "d < 10 \<Longrightarrow> digit_char d \<noteq> CHR ''-''"
  by (drule digit_cases) (auto simp: digit_char_def)

lemma parse_nat_snoc: "parse_nat (cs @ [c]) = 10 * parse_nat cs + digit_val c"
  by (simp add: parse_nat_def)

lemma parse_nat_str_nat: "parse_nat (str_nat n) = n"
proof (induction n rule: str_nat.induct)
  case (1 n)
  show ?case
  proof (cases "n < 10")
    case True
    then show ?thesis by (simp add: str_nat.simps [of n] parse_nat_def digit_val_char)
  next
    case False
    with 1 show ?thesis
      by (simp add: str_nat.simps [of n] parse_nat_snoc digit_val_char)
  qed
qed

lemma str_nat_hd: "\<exists>c cs. str_nat n = c # cs \<and> c \<noteq> CHR ''-''"
proof (induction n rule: str_nat.induct)
  case (1 n)
  show ?case
  proof (cases "n < 10")
    case True
    then show ?thesis by (simp add: str_nat.simps [of n] digit_char_not_minus)
  next
    case False
    with 1 show ?thesis by (auto simp: str_nat.simps [of n])
  qed
qed

lemma parse_int_str_int: "parse_int (str_int i) = i"
proof (cases "i < 0")
  case True
  then show ?thesis by (simp add: parse_int_def str_int_def parse_nat_str_nat)
next
  case False
  obtain c cs where "str_nat (nat i) = c # cs" "c \<noteq> CHR ''-''"
    using str_nat_hd by blast
  with False parse_nat_str_nat [of "nat i"] show ?thesis
    by (simp add: parse_int_def str_int_def)
qed

section \<open>The claims\<close>

text \<open>
  C1.  Let a task \<open>t\<close> be stored under id \<open>i\<close>.  An update of \<open>i\<close> succeeds for every
  payload \<open>u\<close> that passes the validation and holds no null for title, status or
  priority.  Whenever an update of \<open>i\<close> with \<open>u\<close> succeeds, the record it returns is
  the one stored under \<open>i\<close> afterwards, and each of title, description, status and
  priority holds the payload's value when the payload has the field (null, for a
  description, clears it) and the value of \<open>t\<close> when it has not.  The id and
  \<open>created_at\<close> are those of \<open>t\<close>, and \<open>updated_at\<close> is the current time, whatever
  the payload holds.
\<close>

theorem update_merge:
  assumes "session_get s i = Some t"
  shows "(TaskUpdate_errors u = [] \<and> p_title u \<noteq> Null \<and> p_status u \<noteq> Null \<and>
          p_priority u \<noteq> Null \<longrightarrow> (\<exists>t' s'. PUT_task s i u now = (Inr t', s'))) \<and>
         (\<forall>t' s'. PUT_task s i u now = (Inr t', s') \<longrightarrow>
           (case p_title u of Absent \<Rightarrow> title t' = title t | Null \<Rightarrow> False
            | Given v \<Rightarrow> title t' = v) \<and>
           (case p_description u of Absent \<Rightarrow> description t' = description t
            | Null \<Rightarrow> description t' = None | Given v \<Rightarrow> description t' = Some v) \<and>
           (case p_status u of Absent \<Rightarrow> status t' = status t | Null \<Rightarrow> False
            | Given v \<Rightarrow> status t' = v) \<and>
           (case p_priority u of Absent \<Rightarrow> priority t' = priority t | Null \<Rightarrow> False
            | Given v \<Rightarrow> priority t' = v) \<and>
           task_id t' = i \<and> task_id t = i \<and> created_at t' = created_at t \<and>
           updated_at t' = now \<and> session_get s' i = Some t')"
proof (rule conjI; intro allI impI)
  assume "TaskUpdate_errors u = [] \<and> p_title u \<noteq> Null \<and> p_status u \<noteq> Null \<and>
          p_priority u \<noteq> Null"
  with assms show "\<exists>t' s'. PUT_task s i u now = (Inr t', s')"
    by (simp add: PUT_task_succeeds)
next
  fix t' s'
  assume put: "PUT_task s i u now = (Inr t', s')"
  note u = update_task_Inr [OF assms PUT_task_Inr [OF put]]
  have i: "task_id t = i" using assms by (simp add: session_get_in)
  have "session_get s' i = Some t'"
    using u(5) i unfolding session_get_def u(8) by (simp add: find_moved)
  moreover have "case p_title u of Absent \<Rightarrow> title t' = title t | Null \<Rightarrow> False
          | Given v \<Rightarrow> title t' = v"
    using u(1) by (auto simp: set_column_def split: member.splits)
  moreover have "case p_description u of Absent \<Rightarrow> description t' = description t
          | Null \<Rightarrow> description t' = None | Given v \<Rightarrow> description t' = Some v"
    using u(2) by (auto simp: set_nullable_def split: member.splits)
  moreover have "case p_status u of Absent \<Rightarrow> status t' = status t | Null \<Rightarrow> False
          | Given v \<Rightarrow> status t' = v"
    using u(3) by (auto simp: set_column_def split: member.splits)
  moreover have "case p_priority u of Absent \<Rightarrow> priority t' = priority t | Null \<Rightarrow> False
          | Given v \<Rightarrow> priority t' = v"
    using u(4) by (auto simp: set_column_def split: member.splits)
  ultimately show "(case p_title u of Absent \<Rightarrow> title t' = title t | Null \<Rightarrow> False
            | Given v \<Rightarrow> title t' = v) \<and>
           (case p_description u of Absent \<Rightarrow> description t' = description t
            | Null \<Rightarrow> description t' = None | Given v \<Rightarrow> description t' = Some v) \<and>
           (case p_status u of Absent \<Rightarrow> status t' = status t | Null \<Rightarrow> False
            | Given v \<Rightarrow> status t' = v) \<and>
           (case p_priority u of Absent \<Rightarrow> priority t' = priority t | Null \<Rightarrow> False
            | Given v \<Rightarrow> priority t' = v) \<and>
           task_id t' = i \<and> task_id t = i \<and> created_at t' = created_at t \<and>
           updated_at t' = now \<and> session_get s' i = Some t'"
    using u(5,6,7) i by simp
qed

text \<open>
  The task of \<^verbatim>\<open>test_update_task_partial\<close>, stored at times 10 and 11, is updated at
  time 20: once with a status and nothing else, once with a new title, a null
  description and a new priority.
\<close>

theorem update_merge_witness:
  "(\<exists>t' s'. PUT_task
       \<lparr>rows = [\<lparr>title = ''Original Title'', description = Some ''Original Description'',
          status = ''pending'', priority = 1, task_id = 1, created_at = 10,
          updated_at = 11\<rparr>], next_id = 2\<rparr> 1 (only_status ''completed'') 20 = (Inr t', s') \<and>
      title t' = ''Original Title'' \<and> description t' = Some ''Original Description'' \<and>
      status t' = ''completed'' \<and> priority t' = 1 \<and> task_id t' = 1 \<and> created_at t' = 10 \<and>
      updated_at t' = 20 \<and> session_get s' 1 = Some t') \<and>
   (\<exists>t' s'. PUT_task
       \<lparr>rows = [\<lparr>title = ''Original Title'', description = Some ''Original Description'',
          status = ''pending'', priority = 1, task_id = 1, created_at = 10,
          updated_at = 11\<rparr>], next_id = 2\<rparr> 1
       \<lparr>p_title = Given ''Updated'', p_description = Null, p_status = Absent,
        p_priority = Given 3\<rparr> 20 = (Inr t', s') \<and>
      title t' = ''Updated'' \<and> description t' = None \<and> status t' = ''pending'' \<and>
      priority t' = 3 \<and> task_id t' = 1 \<and> created_at t' = 10 \<and> updated_at t' = 20 \<and>
      session_get s' 1 = Some t')"
proof -
  let ?t = "\<lparr>title = ''Original Title'', description = Some ''Original Description'',
        status = ''pending'', priority = 1, task_id = 1, created_at = 10, updated_at = 11\<rparr>"
  let ?s = "\<lparr>rows = [?t], next_id = 2\<rparr>"
  let ?u = "only_status ''completed''"
  let ?v = "\<lparr>p_title = Given ''Updated'', p_description = Null, p_status = Absent,
        p_priority = Given 3\<rparr>"
  have get: "session_get ?s 1 = Some ?t"
    by (simp add: session_get_def)
  have u: "TaskUpdate_errors ?u = [] \<and> p_title ?u \<noteq> Null \<and> p_status ?u \<noteq> Null \<and>
      p_priority ?u \<noteq> Null"
    by (simp add: TaskUpdate_errors_def flag_def update_ok_def only_status_def)
  have v: "TaskUpdate_errors ?v = [] \<and> p_title ?v \<noteq> Null \<and> p_status ?v \<noteq> Null \<and>
      p_priority ?v \<noteq> Null"
    by (simp add: TaskUpdate_errors_def flag_def update_ok_def title_ok_def priority_ok_def)
  from update_merge [OF get, of ?u 20] u
  obtain t' s' where put: "PUT_task ?s 1 ?u 20 = (Inr t', s')" by blast
  with update_merge [OF get, of ?u 20]
  have a: "title t' = ''Original Title'' \<and> description t' = Some ''Original Description'' \<and>
      status t' = ''completed'' \<and> priority t' = 1 \<and> task_id t' = 1 \<and> created_at t' = 10 \<and>
      updated_at t' = 20 \<and> session_get s' 1 = Some t'"
    by (simp add: only_status_def)
  from update_merge [OF get, of ?v 20] v
  obtain t'' s'' where put': "PUT_task ?s 1 ?v 20 = (Inr t'', s'')" by blast
  with update_merge [OF get, of ?v 20]
  have b: "title t'' = ''Updated'' \<and> description t'' = None \<and> status t'' = ''pending'' \<and>
      priority t'' = 3 \<and> task_id t'' = 1 \<and> created_at t'' = 10 \<and> updated_at t'' = 20 \<and>
      session_get s'' 1 = Some t''"
    by simp
  from put a put' b show ?thesis by blast
qed

text \<open>
  C2, at the input where the code breaks it.  The status of a create is not checked
  against its pattern: the body of \<^verbatim>\<open>test_create_task_invalid_status\<close> is stored, and
  the stats then count one task in total and none under any of the three statuses.
\<close>

theorem stats_invalid_status:
  "\<not> status_ok ''invalid_status'' \<and>
   get_stats (run [Create bad_status_body 1 2]) =
     \<lparr>n_total = 1, n_pending = 0, n_in_progress = 0, n_completed = 0\<rparr>"
  by (simp add: get_stats_def status_ok_def eval_defs)

text \<open>
  C3, as the code has it.  On every table, for every skip and limit from 0 up to
  \<open>2 ^ 63 - 1\<close>, the list operation succeeds with this result: the rows of the table
  in the order the table returns them, restricted to those whose status equals
  status_filter when one is given (None and the empty string count as none given),
  without the first skip of them and cut after limit.  On every table reached by creates
  and deletes alone the rows stand in the order of their creation: their ids increase
  strictly and lie below the id the next create will take.  An empty result is a success
  like any other.
\<close>

theorem list_tasks_order:
  assumes "0 \<le> skip" and "skip < 2 ^ 63" and "0 \<le> limit" and "limit < 2 ^ 63"
  shows "list_tasks s skip limit status_filter =
           Inr (take (nat limit) (drop (nat skip)
             (case status_filter of
                None \<Rightarrow> rows s
              | Some f \<Rightarrow> if f = [] then rows s
                          else filter (\<lambda>r. status r = f) (rows s)))) \<and>
         (list_all (\<lambda>r. \<not> is_update r) reqs \<longrightarrow>
            sorted_wrt (<) (map task_id (rows (run reqs))) \<and>
            list_all (\<lambda>r. task_id r < next_id (run reqs)) (rows (run reqs)))"
proof -
  have "list_tasks s skip limit status_filter =
           Inr (take (nat limit) (drop (nat skip)
             (case status_filter of
                None \<Rightarrow> rows s
              | Some f \<Rightarrow> if f = [] then rows s
                          else filter (\<lambda>r. status r = f) (rows s))))"
    using assms by (auto simp: list_tasks_def truthy_def split: option.splits)
  moreover have "sorted_wrt (<) (map task_id (rows (run reqs)))"
    if "list_all (\<lambda>r. \<not> is_update r) reqs"
    using run_ids_ok [OF that] by (simp add: ids_ok_def)
  moreover have "list_all (\<lambda>r. task_id r < next_id (run reqs)) (rows (run reqs))"
    if "list_all (\<lambda>r. \<not> is_update r) reqs"
    using run_ids_ok [OF that] by (simp add: ids_ok_def list_all_iff)
  ultimately show ?thesis by blast
qed

text \<open>With skip = 2 and limit = 2 over five tasks, the third and the fourth come back.\<close>

theorem list_tasks_order_witness:
  "list_tasks (run five_tasks) 2 2 None =
     Inr [\<lparr>title = ''Task 3'', description = None, status = ''pending'', priority = 1,
            task_id = 3, created_at = 5, updated_at = 6\<rparr>,
          \<lparr>title = ''Task 4'', description = None, status = ''pending'', priority = 1,
            task_id = 4, created_at = 7, updated_at = 8\<rparr>] \<and>
   map task_id (rows (run five_tasks)) = [1, 2, 3, 4, 5] \<and>
   sorted_wrt (<) (map task_id (rows (run five_tasks)))"
proof -
  have "(0::int) \<le> 2" "(2::int) < 2 ^ 63" by simp_all
  from list_tasks_order [OF this this, of "run five_tasks" None five_tasks]
  show ?thesis by (simp add: five_tasks_def eval_defs)
qed

text \<open>
  The claim as stated fails: after an update of the second of five tasks the list is not
  in creation order, the updated task comes last.
\<close>

theorem list_after_update_counterexample:
  "list_tasks (run (five_tasks @ [Update 2 (only_status ''completed'') 11])) 0 100 None =
     Inr (rows (run (five_tasks @ [Update 2 (only_status ''completed'') 11]))) \<and>
   map task_id (rows (run (five_tasks @ [Update 2 (only_status ''completed'') 11]))) =
     [1, 3, 4, 5, 2]"
  by (simp add: list_tasks_def truthy_def five_tasks_def eval_defs)

text \<open>
  C4, at the input where the code breaks it.  The body of
  \<^verbatim>\<open>test_create_task_invalid_status\<close> violates the constraint on status, and on status
  alone; the create does not fail, it stores the record with that status.
\<close>

theorem create_invalid_status_stored:
  "violated_fields bad_status_body = [''status''] \<and>
   POST_tasks empty_store bad_status_body 1 2 =
     (Inr \<lparr>title = ''Task with bad status'', description = None, status = ''invalid_status'',
           priority = 1, task_id = 1, created_at = 1, updated_at = 2\<rparr>,
      \<lparr>rows = [\<lparr>title = ''Task with bad status'', description = None,
           status = ''invalid_status'', priority = 1, task_id = 1, created_at = 1,
           updated_at = 2\<rparr>], next_id = 2\<rparr>)"
  by (simp add: violated_fields_def title_violated_def description_violated_def
      status_violated_def priority_violated_def eval_defs)

text \<open>
  C5, as the code has it.  The list operation checks none of its parameters.  A negative
  skip or limit is refused, by the storage engine.  A limit of 0 is not: the request
  succeeds with the empty list.  A status_filter is never compared with the enumeration:
  any non-empty string is the status the rows are filtered by, and the request succeeds.
\<close>

theorem list_tasks_unchecked:
  "(skip < 0 \<or> limit < 0 \<longrightarrow> list_tasks s skip limit status_filter = Inl StorageError) \<and>
   (0 \<le> skip \<and> skip < 2 ^ 63 \<longrightarrow> list_tasks s skip 0 status_filter = Inr []) \<and>
   (0 \<le> skip \<and> skip < 2 ^ 63 \<and> 0 \<le> limit \<and> limit < 2 ^ 63 \<and> f \<noteq> [] \<longrightarrow>
      list_tasks s skip limit (Some f) =
        Inr (take (nat limit) (drop (nat skip) (filter (\<lambda>r. status r = f) (rows s)))))"
  by (simp add: list_tasks_def truthy_def Let_def)

text \<open>
  A skip of -1 is refused; a limit of 0 gives nothing; the filter "invalid_status" gives
  the task that was stored with that status.
\<close>

theorem list_tasks_unchecked_witness:
  "list_tasks (run five_tasks) (- 1) 10 None = Inl StorageError \<and>
   list_tasks (run five_tasks) 0 0 None = Inr [] \<and>
   list_tasks (run [Create bad_status_body 1 2]) 0 100 (Some ''invalid_status'') =
     Inr [\<lparr>title = ''Task with bad status'', description = None,
           status = ''invalid_status'', priority = 1, task_id = 1, created_at = 1,
           updated_at = 2\<rparr>]"
proof -
  have r: "rows (run [Create bad_status_body 1 2]) =
      [\<lparr>title = ''Task with bad status'', description = None,
        status = ''invalid_status'', priority = 1, task_id = 1, created_at = 1,
        updated_at = 2\<rparr>]"
    by (simp add: eval_defs)
  from list_tasks_unchecked [of "- 1" 10 "run five_tasks" None "''x''"]
    list_tasks_unchecked [of 0 0 "run five_tasks" None "''x''"]
    list_tasks_unchecked [of 0 100 "run [Create bad_status_body 1 2]" None
      "''invalid_status''"] r
  show ?thesis by simp
qed

text \<open>
  The claim as stated fails: a request with limit = 0 and a status_filter that is not a
  status is answered with an empty list, not rejected.
\<close>

theorem list_tasks_counterexample:
  "list_tasks (run five_tasks) 0 0 (Some ''done'') = Inr []"
  by (simp add: list_tasks_def truthy_def)

text \<open>
  C6, as the code has it.  For an id with no record in the table, get-by-id and delete
  fail with a NotFound whose detail holds the text of the id (from which the id can be
  read back), and so does an update whose payload passes the validation; an update whose
  payload does not pass it fails with the ValidationError, the id not being looked up.
  The table is left as it was in every case.
\<close>

theorem missing_id_not_found:
  assumes "i \<notin> task_id ` set (rows s)"
  shows "read_task s i = Inl (NotFound (''Task with ID '' @ str_int i @ '' not found'')) \<and>
         delete_task s i = (Inl (NotFound (''Task with ID '' @ str_int i @ '' not found'')), s) \<and>
         PUT_task s i u now =
           (if TaskUpdate_errors u = []
            then (Inl (NotFound (''Task with ID '' @ str_int i @ '' not found'')), s)
            else (Inl (ValidationError (TaskUpdate_errors u)), s)) \<and>
         parse_int (str_int i) = i"
  using not_stored [OF assms]
  by (simp add: read_task_def delete_task_def PUT_task_def TaskUpdate_validate_def
      update_task_def not_found_detail_def parse_int_str_int)

theorem missing_id_not_found_witness:
  "read_task empty_store 999 = Inl (NotFound ''Task with ID 999 not found'') \<and>
   delete_task empty_store 999 = (Inl (NotFound ''Task with ID 999 not found''), empty_store) \<and>
   PUT_task empty_store 999 (only_status ''completed'') 5 =
     (Inl (NotFound ''Task with ID 999 not found''), empty_store) \<and>
   PUT_task empty_store 999 (only_status ''invalid'') 5 =
     (Inl (NotFound ''Task with ID 999 not found''), empty_store)"
proof -
  have "(999::int) \<notin> task_id ` set (rows empty_store)" by (simp add: empty_store_def)
  from missing_id_not_found [OF this, of "only_status ''completed''" 5]
    missing_id_not_found [OF this, of "only_status ''invalid''" 5]
  show ?thesis
    by (simp add: str_int_def str_nat.simps digit_char_def TaskUpdate_errors_def flag_def
        update_ok_def only_status_def)
qed

text \<open>
  The claim as stated fails for the update: with no record under 999 and a priority of
  5, the answer is the ValidationError, not NotFound.
\<close>

theorem update_missing_id_counterexample:
  "PUT_task empty_store 999
     \<lparr>p_title = Absent, p_description = Absent, p_status = Absent,
      p_priority = Given 5\<rparr> 5 = (Inl (ValidationError [''priority'']), empty_store)"
  by (simp add: PUT_task_def TaskUpdate_validate_def TaskUpdate_errors_def flag_def
      update_ok_def priority_ok_def)

text \<open>
  C7.  When the table holds a record with id \<open>i\<close>, deleting \<open>i\<close> succeeds; afterwards
  a get of \<open>i\<close> is NotFound, a get of any other id answers as before, the rows are the
  former rows without those of id \<open>i\<close>, each with all its fields, and the sequence of
  ids is where it was.  With ids that are unique, exactly one row is gone.
\<close>

theorem delete_isolated:
  assumes "i \<in> task_id ` set (rows s)"
  shows "fst (delete_task s i) = Inr () \<and>
         read_task (snd (delete_task s i)) i = Inl (NotFound (not_found_detail i)) \<and>
         (\<forall>j. j \<noteq> i \<longrightarrow> read_task (snd (delete_task s i)) j = read_task s j) \<and>
         rows (snd (delete_task s i)) = filter (\<lambda>r. task_id r \<noteq> i) (rows s) \<and>
         next_id (snd (delete_task s i)) = next_id s \<and>
         (distinct (map task_id (rows s)) \<longrightarrow>
            Suc (length (rows (snd (delete_task s i)))) = length (rows s))"
proof -
  from stored [OF assms] obtain t where t: "session_get s i = Some t" ..
  then have d: "delete_task s i = (Inr (), s\<lparr>rows := filter (\<lambda>r. task_id r \<noteq> i) (rows s)\<rparr>)"
    by (simp add: delete_task_def)
  have "read_task (snd (delete_task s i)) i = Inl (NotFound (not_found_detail i))"
  proof -
    have "find (\<lambda>r. task_id r = i) (filter (\<lambda>r. task_id r \<noteq> i) (rows s)) = None"
      by (simp add: find_None_iff)
    then show ?thesis unfolding d by (simp add: read_task_def session_get_def)
  qed
  moreover have "\<forall>j. j \<noteq> i \<longrightarrow> read_task (snd (delete_task s i)) j = read_task s j"
    unfolding d by (simp add: read_task_def session_get_def find_filter_other)
  moreover have "distinct (map task_id (rows s)) \<longrightarrow>
            Suc (length (rows (snd (delete_task s i)))) = length (rows s)"
    unfolding d using assms by (simp add: length_filter_other)
  ultimately show ?thesis unfolding d by simp
qed

text \<open>Of five tasks the second is deleted: the first and the third are still served.\<close>

theorem delete_isolated_witness:
  "fst (delete_task (run five_tasks) 2) = Inr () \<and>
   read_task (snd (delete_task (run five_tasks) 2)) 2 =
     Inl (NotFound ''Task with ID 2 not found'') \<and>
   read_task (snd (delete_task (run five_tasks) 2)) 1 =
     Inr \<lparr>title = ''Task 1'', description = None, status = ''pending'', priority = 1,
            task_id = 1, created_at = 1, updated_at = 2\<rparr> \<and>
   read_task (snd (delete_task (run five_tasks) 2)) 3 =
     Inr \<lparr>title = ''Task 3'', description = None, status = ''pending'', priority = 1,
            task_id = 3, created_at = 5, updated_at = 6\<rparr> \<and>
   length (rows (snd (delete_task (run five_tasks) 2))) = 4"
proof -
  have ids: "map task_id (rows (run five_tasks)) = [1, 2, 3, 4, 5]"
    by (simp add: five_tasks_def eval_defs)
  have len: "length (rows (run five_tasks)) = 5"
    by (simp add: five_tasks_def eval_defs)
  have r1: "read_task (run five_tasks) 1 =
     Inr \<lparr>title = ''Task 1'', description = None, status = ''pending'', priority = 1,
            task_id = 1, created_at = 1, updated_at = 2\<rparr>"
    by (simp add: five_tasks_def eval_defs read_task_def)
  have r3: "read_task (run five_tasks) 3 =
     Inr \<lparr>title = ''Task 3'', description = None, status = ''pending'', priority = 1,
            task_id = 3, created_at = 5, updated_at = 6\<rparr>"
    by (simp add: five_tasks_def eval_defs read_task_def)
  have "(2::int) \<in> task_id ` set (rows (run five_tasks))"
    using ids by (metis list.set_map list.set_intros(1,2))
  note d = delete_isolated [OF this]
  have "distinct (map task_id (rows (run five_tasks)))" using ids by simp
  with d have l: "Suc (length (rows (snd (delete_task (run five_tasks) 2)))) =
      length (rows (run five_tasks))" by blast
  from d have a: "fst (delete_task (run five_tasks) 2) = Inr ()" by blast
  from d have b: "read_task (snd (delete_task (run five_tasks) 2)) 2 =
      Inl (NotFound (not_found_detail 2))" by blast
  from d have "\<forall>j. j \<noteq> 2 \<longrightarrow>
      read_task (snd (delete_task (run five_tasks) 2)) j = read_task (run five_tasks) j"
    by blast
  then have c: "read_task (snd (delete_task (run five_tasks) 2)) 1 = read_task (run five_tasks) 1"
      "read_task (snd (delete_task (run five_tasks) 2)) 3 = read_task (run five_tasks) 3"
    by simp_all
  from a b c l r1 r3 len show ?thesis
    by (simp add: not_found_detail_def str_int_def str_nat.simps digit_char_def)
qed

text \<open>
  C8.  A create payload that supplies only a (valid) title yields a persisted record with
  status "pending", priority 1 and no description.
\<close>

theorem create_defaults:
  "1 \<le> length ttl \<Longrightarrow> length ttl \<le> 200 \<Longrightarrow>
   POST_tasks s \<lparr>p_title = Given ttl, p_description = Absent, p_status = Absent,
                 p_priority = Absent\<rparr> t1 t2 =
     (Inr \<lparr>title = ttl, description = None, status = ''pending'', priority = 1,
           task_id = next_id s, created_at = t1, updated_at = t2\<rparr>,
      \<lparr>rows = rows s @ [\<lparr>title = ttl, description = None, status = ''pending'', priority = 1,
           task_id = next_id s, created_at = t1, updated_at = t2\<rparr>],
       next_id = next_id s + 1\<rparr>)"
  by (simp add: POST_tasks_def TaskCreate_validate_def create_title_def create_description_def
      create_status_def create_priority_def title_ok_def status_ok_def priority_ok_def
      create_task_def Let_def)

theorem create_defaults_witness:
  "POST_tasks empty_store \<lparr>p_title = Given ''Simple task'', p_description = Absent,
       p_status = Absent, p_priority = Absent\<rparr> 7 8 =
     (Inr \<lparr>title = ''Simple task'', description = None, status = ''pending'', priority = 1,
           task_id = 1, created_at = 7, updated_at = 8\<rparr>,
      \<lparr>rows = [\<lparr>title = ''Simple task'', description = None, status = ''pending'',
           priority = 1, task_id = 1, created_at = 7, updated_at = 8\<rparr>], next_id = 2\<rparr>)"
  using create_defaults [of "''Simple task''" empty_store 7 8]
  by (simp add: empty_store_def)

text \<open>
  C9, as the code has it.  A create reads the clock twice, for \<open>created_at\<close> and then
  for \<open>updated_at\<close>, and an update reads it once more.  When no reading is earlier
  than the one before it, every record of every reachable table has
  \<open>created_at \<le> updated_at\<close>.
\<close>

theorem updated_after_created:
  assumes "sorted (clock reqs)"
  shows "\<forall>r \<in> set (rows (run reqs)). created_at r \<le> updated_at r"
proof -
  obtain b where b: "sorted (b # clock reqs)"
  proof (cases "clock reqs")
    case Nil
    then have "sorted (0 # clock reqs)" by simp
    then show ?thesis by (rule that)
  next
    case (Cons x xs)
    with assms have "sorted (x # clock reqs)" by simp
    then show ?thesis by (rule that)
  qed
  have "stamps_ok b empty_store" by (simp add: stamps_ok_def empty_store_def)
  from foldl_stamps_ok [OF this b [unfolded clock_def]]
  show ?thesis by (auto simp: run_def stamps_ok_def list_all_iff)
qed

text \<open>
  Five creates, an update of the second task at time 11, a delete of the fourth: the
  tasks 1, 3, 5 and 2 are left, in this order.
\<close>

theorem updated_after_created_witness:
  "sorted (clock (five_tasks @ [Update 2 (only_status ''completed'') 11, Delete 4])) \<and>
   list_all (\<lambda>r. created_at r \<le> updated_at r)
     (rows (run (five_tasks @ [Update 2 (only_status ''completed'') 11, Delete 4]))) \<and>
   map (\<lambda>r. (task_id r, created_at r, updated_at r))
     (rows (run (five_tasks @ [Update 2 (only_status ''completed'') 11, Delete 4]))) =
     [(1, 1, 2), (3, 5, 6), (5, 9, 10), (2, 3, 11)]"
proof -
  let ?reqs = "five_tasks @ [Update 2 (only_status ''completed'') 11, Delete 4]"
  have c: "sorted (clock ?reqs)" by (simp add: clock_def five_tasks_def)
  have r: "map (\<lambda>r. (task_id r, created_at r, updated_at r)) (rows (run ?reqs)) =
      [(1, 1, 2), (3, 5, 6), (5, 9, 10), (2, 3, 11)]"
    by (simp add: five_tasks_def eval_defs)
  from updated_after_created [OF c] c r show ?thesis by (simp add: list_all_iff)
qed

text \<open>
  The claim as stated fails: when the clock is set back between the two readings of a
  create, from 10 to 5, the record is stored with \<open>updated_at\<close> before \<open>created_at\<close>.
\<close>

theorem clock_set_back_counterexample:
  "map (\<lambda>r. (created_at r, updated_at r)) (rows (run [Create (only_title ''x'') 10 5])) =
     [(10, 5)]"
  by (simp add: eval_defs)

text \<open>
  C10.  A list request whose status_filter is the empty string gives the result of the
  request with the same skip and limit and no filter.
\<close>

theorem list_empty_filter:
  "list_tasks s skip limit (Some '''') = list_tasks s skip limit None"
  by (simp add: list_tasks_def truthy_def)

end
